theory Spec2Isabelle
  imports Main
begin

section \<open>Shared shapes\<close>

text \<open>
  Both validators of the package return the object \<open>{ valid: boolean; error?: string }\<close>.
  The optional \<open>error\<close> property is an \<open>option\<close>; the message is the string the
  source builds.
\<close>

record validation =
  valid :: bool
  error :: "string option"

text \<open>
  A template literal prints a missing value as \<open>undefined\<close>; \<open>tpl\<close> is the rendering
  of an optional string inside a template.
\<close>

definition tpl :: "string option \<Rightarrow> string" where
  "tpl s = (case s of None \<Rightarrow> ''undefined'' | Some t \<Rightarrow> t)"

text \<open>\<open>Array.prototype.includes\<close> on a list of numbers.\<close>

primrec arr_includes :: "'a list \<Rightarrow> 'a \<Rightarrow> bool" where
  "arr_includes [] x = False"
| "arr_includes (y # ys) x = (y = x \<or> arr_includes ys x)"

section \<open>Glyph protocol ids and the combination validator (glyph.ts)\<close>

definition GLYPH_FT :: int where "GLYPH_FT = 1"
definition GLYPH_NFT :: int where "GLYPH_NFT = 2"
definition GLYPH_DAT :: int where "GLYPH_DAT = 3"
definition GLYPH_DMINT :: int where "GLYPH_DMINT = 4"
definition GLYPH_MUT :: int where "GLYPH_MUT = 5"
definition GLYPH_BURN :: int where "GLYPH_BURN = 6"
definition GLYPH_CONTAINER :: int where "GLYPH_CONTAINER = 7"
definition GLYPH_ENCRYPTED :: int where "GLYPH_ENCRYPTED = 8"
definition GLYPH_TIMELOCK :: int where "GLYPH_TIMELOCK = 9"
definition GLYPH_AUTHORITY :: int where "GLYPH_AUTHORITY = 10"
definition GLYPH_WAVE :: int where "GLYPH_WAVE = 11"

text \<open>The object \<open>GlyphProtocol\<close>, as its entries in insertion order.\<close>

definition GlyphProtocol :: "(string \<times> int) list" where
  "GlyphProtocol =
    [(''GLYPH_FT'', GLYPH_FT), (''GLYPH_NFT'', GLYPH_NFT), (''GLYPH_DAT'', GLYPH_DAT),
     (''GLYPH_DMINT'', GLYPH_DMINT), (''GLYPH_MUT'', GLYPH_MUT), (''GLYPH_BURN'', GLYPH_BURN),
     (''GLYPH_CONTAINER'', GLYPH_CONTAINER), (''GLYPH_ENCRYPTED'', GLYPH_ENCRYPTED),
     (''GLYPH_TIMELOCK'', GLYPH_TIMELOCK), (''GLYPH_AUTHORITY'', GLYPH_AUTHORITY),
     (''GLYPH_WAVE'', GLYPH_WAVE)]"

text \<open>\<open>getProtocolName\<close>: the first entry whose value is the id, or \<open>undefined\<close>.\<close>

fun entryNamed :: "(string \<times> int) list \<Rightarrow> int \<Rightarrow> string option" where
  "entryNamed [] ident = None"
| "entryNamed ((name, val) # rest) ident =
     (if val = ident then Some name else entryNamed rest ident)"

definition getProtocolName :: "int \<Rightarrow> string option" where
  "getProtocolName ident = entryNamed GlyphProtocol ident"

text \<open>
  \<open>PROTOCOL_REQUIREMENTS\<close> is a \<open>Record<number, number[]>\<close>: a lookup of an id with
  no entry gives \<open>undefined\<close>, here \<open>None\<close>.
\<close>

definition PROTOCOL_REQUIREMENTS :: "int \<rightharpoonup> int list" where
  "PROTOCOL_REQUIREMENTS = map_of
    [(GLYPH_DMINT, [GLYPH_FT]),
     (GLYPH_MUT, [GLYPH_NFT]),
     (GLYPH_CONTAINER, [GLYPH_NFT]),
     (GLYPH_ENCRYPTED, [GLYPH_NFT]),
     (GLYPH_TIMELOCK, [GLYPH_ENCRYPTED]),
     (GLYPH_AUTHORITY, [GLYPH_NFT]),
     (GLYPH_WAVE, [GLYPH_NFT, GLYPH_MUT])]"

definition PROTOCOL_EXCLUSIONS :: "(int \<times> int) list" where
  "PROTOCOL_EXCLUSIONS = [(GLYPH_FT, GLYPH_NFT)]"

definition PROTOCOLS_REQUIRE_BASE :: "int list" where
  "PROTOCOLS_REQUIRE_BASE =
    [GLYPH_DMINT, GLYPH_MUT, GLYPH_BURN, GLYPH_CONTAINER, GLYPH_ENCRYPTED, GLYPH_TIMELOCK,
     GLYPH_AUTHORITY, GLYPH_WAVE]"

text \<open>
  The three loops of \<open>validateProtocols\<close>. Each returns \<open>Some\<close> of the failure it
  returns from inside the loop, and \<open>None\<close> when the loop runs to its end.
\<close>

fun exclusionLoop :: "(int \<times> int) list \<Rightarrow> int list \<Rightarrow> validation option" where
  "exclusionLoop [] protocols = None"
| "exclusionLoop ((a, b) # rest) protocols =
     (if arr_includes protocols a \<and> arr_includes protocols b
      then Some \<lparr>valid = False,
                 error = Some (''Protocols '' @ tpl (getProtocolName a) @ '' and '' @
                               tpl (getProtocolName b) @ '' are mutually exclusive'')\<rparr>
      else exclusionLoop rest protocols)"

fun requiredLoop :: "int \<Rightarrow> int list \<Rightarrow> int list \<Rightarrow> validation option" where
  "requiredLoop protocol [] protocols = None"
| "requiredLoop protocol (required # rest) protocols =
     (if \<not> arr_includes protocols required
      then Some \<lparr>valid = False,
                 error = Some (''Protocol '' @ tpl (getProtocolName protocol) @ '' requires '' @
                               tpl (getProtocolName required))\<rparr>
      else requiredLoop protocol rest protocols)"

fun requirementsLoop :: "int list \<Rightarrow> int list \<Rightarrow> validation option" where
  "requirementsLoop [] protocols = None"
| "requirementsLoop (protocol # rest) protocols =
     (case PROTOCOL_REQUIREMENTS protocol of
        None \<Rightarrow> requirementsLoop rest protocols
      | Some requirements \<Rightarrow>
          (case requiredLoop protocol requirements protocols of
             Some failure \<Rightarrow> Some failure
           | None \<Rightarrow> requirementsLoop rest protocols))"

definition validateProtocols :: "int list \<Rightarrow> validation" where
  "validateProtocols protocols =
    (case exclusionLoop PROTOCOL_EXCLUSIONS protocols of
       Some failure \<Rightarrow> failure
     | None \<Rightarrow>
        (case requirementsLoop protocols protocols of
           Some failure \<Rightarrow> failure
         | None \<Rightarrow>
            if length protocols = 1 \<and> arr_includes PROTOCOLS_REQUIRE_BASE (protocols ! 0)
            then \<lparr>valid = False,
                  error = Some (''Protocol '' @ tpl (getProtocolName (protocols ! 0)) @
                                '' cannot exist alone'')\<rparr>
            else if arr_includes protocols GLYPH_BURN \<and>
                    \<not> arr_includes protocols GLYPH_FT \<and> \<not> arr_includes protocols GLYPH_NFT
            then \<lparr>valid = False, error = Some ''BURN must accompany FT or NFT''\<rparr>
            else \<lparr>valid = True, error = None\<rparr>))"

text \<open>
  The combinations that pass, as a predicate on the set of ids present: no excluded pair,
  every requirement present, and Burn only next to FT or NFT.
\<close>

definition acceptable :: "int set \<Rightarrow> bool" where
  "acceptable S \<longleftrightarrow>
     (\<forall>(a, b) \<in> set PROTOCOL_EXCLUSIONS. \<not> (a \<in> S \<and> b \<in> S)) \<and>
     (\<forall>q \<in> S. \<forall>rs. PROTOCOL_REQUIREMENTS q = Some rs \<longrightarrow> set rs \<subseteq> S) \<and>
     \<not> (GLYPH_BURN \<in> S \<and> GLYPH_FT \<notin> S \<and> GLYPH_NFT \<notin> S)"

section \<open>Strings\<close>

text \<open>
  A JavaScript string is a sequence of UTF-16 code units. The model's \<open>char\<close> is the
  code units below 256 (Basic Latin and Latin-1 Supplement), and \<open>length\<close> counts code
  units as \<open>String.prototype.length\<close> does. \<open>toLowerCase\<close> maps \<open>A-Z\<close> and the
  Latin-1 capitals (U+00C0 to U+00DE without the multiplication sign U+00D7) to the code
  unit 32 above and leaves every other code unit of this range alone.
\<close>

definition lowerChar :: "char \<Rightarrow> char" where
  "lowerChar c =
     (let n = (of_char c :: nat)
      in if (65 \<le> n \<and> n \<le> 90) \<or> (192 \<le> n \<and> n \<le> 222 \<and> n \<noteq> 215)
         then char_of (n + 32) else c)"

definition toLowerCase :: "string \<Rightarrow> string" where
  "toLowerCase s = map lowerChar s"

definition startsWith :: "string \<Rightarrow> string \<Rightarrow> bool" where
  "startsWith s pat = (take (length pat) s = pat)"

definition endsWith :: "string \<Rightarrow> string \<Rightarrow> bool" where
  "endsWith s pat = (length pat \<le> length s \<and> drop (length s - length pat) s = pat)"

text \<open>
  \<open>String.prototype.indexOf\<close>: the position of the first occurrence of \<open>pat\<close>, or
  \<open>-1\<close>. \<open>String.prototype.includes\<close> is the same search, asked whether it finds.
\<close>

fun indexOf :: "string \<Rightarrow> string \<Rightarrow> int" where
  "indexOf [] pat = (if pat = [] then 0 else - 1)"
| "indexOf (c # s) pat =
     (if startsWith (c # s) pat then 0
      else (let r = indexOf s pat in if r = - 1 then - 1 else r + 1))"

definition str_includes :: "string \<Rightarrow> string \<Rightarrow> bool" where
  "str_includes s pat = (indexOf s pat \<noteq> - 1)"

text \<open>
  \<open>s.split(sep)\<close> for a separator of one code unit: the segments between the
  separators, empty ones included, so that the empty string splits into one empty segment.
  \<open>s.split('')\<close> gives the code units, each as a string.
\<close>

fun str_split :: "char \<Rightarrow> string \<Rightarrow> string list" where
  "str_split sep [] = [[]]"
| "str_split sep (c # s) =
     (if c = sep then [] # str_split sep s
      else (case str_split sep s of
              [] \<Rightarrow> [[c]]
            | seg # segs \<Rightarrow> (c # seg) # segs))"

definition split_units :: "string \<Rightarrow> string list" where
  "split_units s = map (\<lambda>c. [c]) s"

section \<open>WAVE constants and data (wave.ts)\<close>

definition WAVE_CHARS :: string where
  "WAVE_CHARS = ''abcdefghijklmnopqrstuvwxyz0123456789-''"

definition MAX_NAME_LENGTH :: nat where "MAX_NAME_LENGTH = 63"
definition MAX_SUBDOMAIN_DEPTH :: nat where "MAX_SUBDOMAIN_DEPTH = 127"

text \<open>\<open>WaveProtocols.WAVE_NAME\<close> and \<open>WaveProtocols.WAVE_NAME_IMMUTABLE\<close>.\<close>

definition WAVE_NAME :: "int list" where
  "WAVE_NAME = [GLYPH_NFT, GLYPH_MUT, GLYPH_WAVE]"

definition WAVE_NAME_IMMUTABLE :: "int list" where
  "WAVE_NAME_IMMUTABLE = [GLYPH_NFT, GLYPH_WAVE]"

text \<open>\<open>WaveSchema\<close>.\<close>

definition NAMESPACE :: string where "NAMESPACE = ''rxd.wave''"
definition VERSION :: string where "VERSION = ''wave_name_v1''"

text \<open>
  What the module throws. Each constructor is one \<open>throw new Error(...)\<close> of the source
  and carries the values its message interpolates:
  \<^item> \<open>ExpectedSingleCharacter char\<close>: \<open>Expected single character, got: "char"\<close>;
  \<^item> \<open>InvalidWaveCharacter char\<close>: \<open>Invalid WAVE character: "char"\<close>;
  \<^item> \<open>InvalidWaveIndex index\<close>: \<open>Invalid WAVE index: index (must be 0-36)\<close>;
  \<^item> \<open>InvalidBranchOutputIndex i\<close>: \<open>Invalid branch output index: i (must be 1-37)\<close>;
  \<^item> \<open>InvalidName e\<close>: \<open>Invalid name: e\<close>, \<open>e\<close> the validator's \<open>error\<close>.
\<close>

datatype error =
    ExpectedSingleCharacter string
  | InvalidWaveCharacter string
  | InvalidWaveIndex int
  | InvalidBranchOutputIndex int
  | InvalidName "string option"

text \<open>
  \<open>WaveNameData\<close>, the \<open>app\<close> object, the \<open>mutable\<close> block and \<open>WaveMetadata\<close>. The
  zone records are passed through untouched, so their type is a parameter. The optional
  properties \<open>registered\<close> and \<open>delegations\<close> of \<open>WaveNameData\<close> are never set by this
  module and are left out. The literal types \<open>v: 2\<close> and \<open>type: 'wave_name'\<close> are
  ordinary fields holding that value.
\<close>

record 'z WaveNameData =
  name :: string
  parent :: "string option"
  zone :: 'z

record 'z WaveApp =
  namespace :: string
  schema :: string
  data :: "'z WaveNameData"

record MutableBlock =
  allowed :: bool
  controller :: "string option"
  fields_mut :: "string list"

record 'z WaveMetadata =
  v :: int
  type :: string
  p :: "int list"
  name :: string
  desc :: "string option"
  app :: "'z WaveApp"
  mutable :: "MutableBlock option"

text \<open>The \<open>options\<close> argument of \<open>createWaveMetadata\<close>; every property is optional.\<close>

record Options =
  mutable :: "bool option"
  controllerRef :: "string option"
  description :: "string option"

text \<open>One element of the array \<open>getCharacterPath\<close> returns.\<close>

record CharacterPathEntry =
  char :: string
  index :: int
  outputIndex :: int

section \<open>The character codec\<close>

definition charToIndex :: "string \<Rightarrow> error + int" where
  "charToIndex ch =
     (if length ch \<noteq> 1 then Inl (ExpectedSingleCharacter ch)
      else (let idx = indexOf WAVE_CHARS (toLowerCase ch)
            in if idx = - 1 then Inl (InvalidWaveCharacter ch) else Inr idx))"

definition indexToChar :: "int \<Rightarrow> error + string" where
  "indexToChar i =
     (if i < 0 \<or> i \<ge> int (length WAVE_CHARS) then Inl (InvalidWaveIndex i)
      else Inr [WAVE_CHARS ! nat i])"

definition charToOutputIndex :: "string \<Rightarrow> error + int" where
  "charToOutputIndex ch = (case charToIndex ch of Inl e \<Rightarrow> Inl e | Inr i \<Rightarrow> Inr (i + 1))"

definition outputIndexToChar :: "int \<Rightarrow> error + string" where
  "outputIndexToChar i =
     (if i < 1 \<or> i > 37 then Inl (InvalidBranchOutputIndex i) else indexToChar (i - 1))"

section \<open>Name and domain validation\<close>

text \<open>
  The loop over the lowercased name: the first code unit outside \<open>WAVE_CHARS\<close> is
  reported, \<open>None\<close> when there is none.
\<close>

fun invalidCharLoop :: "string \<Rightarrow> validation option" where
  "invalidCharLoop [] = None"
| "invalidCharLoop (c # rest) =
     (if \<not> str_includes WAVE_CHARS [c]
      then Some \<lparr>valid = False, error = Some (''Invalid character: \"'' @ [c] @ ''\"'')\<rparr>
      else invalidCharLoop rest)"

text \<open>
  \<open>validateWaveName\<close>. The length message interpolates
  \<open>WaveLimits.MAX_NAME_LENGTH\<close>, which is 63.
\<close>

definition validateWaveName :: "string \<Rightarrow> validation" where
  "validateWaveName nm =
     (if nm = [] then \<lparr>valid = False, error = Some ''Name cannot be empty''\<rparr>
      else if length nm > MAX_NAME_LENGTH
      then \<lparr>valid = False, error = Some ''Name exceeds maximum length of 63''\<rparr>
      else if startsWith nm ''-''
      then \<lparr>valid = False, error = Some ''Name cannot start with hyphen''\<rparr>
      else if endsWith nm ''-''
      then \<lparr>valid = False, error = Some ''Name cannot end with hyphen''\<rparr>
      else if str_includes nm ''--'' \<and> \<not> startsWith nm ''xn--''
      then \<lparr>valid = False,
            error = Some ''Name cannot contain consecutive hyphens (except Punycode prefix)''\<rparr>
      else (case invalidCharLoop (toLowerCase nm) of
              Some failure \<Rightarrow> failure
            | None \<Rightarrow> \<lparr>valid = True, error = None\<rparr>))"

definition isPunycode :: "string \<Rightarrow> bool" where
  "isPunycode nm = startsWith (toLowerCase nm) ''xn--''"

definition parseLabels :: "string \<Rightarrow> string list" where
  "parseLabels domain = filter (\<lambda>label. length label > 0) (str_split CHR ''.'' domain)"

text \<open>\<open>joinLabels\<close> is \<open>labels.join('.')\<close>.\<close>

fun joinLabels :: "string list \<Rightarrow> string" where
  "joinLabels [] = []"
| "joinLabels [label] = label"
| "joinLabels (label # rest) = label @ ''.'' @ joinLabels rest"

text \<open>The loop of \<open>validateDomain\<close> over the labels: the first refused label is reported.\<close>

fun labelLoop :: "string list \<Rightarrow> validation option" where
  "labelLoop [] = None"
| "labelLoop (label # rest) =
     (let result = validateWaveName label
      in if \<not> valid result
         then Some \<lparr>valid = False,
                    error = Some (''Invalid label \"'' @ label @ ''\": '' @ tpl (error result))\<rparr>
         else labelLoop rest)"

text \<open>
  \<open>validateDomain\<close>. The depth message interpolates
  \<open>WaveLimits.MAX_SUBDOMAIN_DEPTH\<close>, which is 127.
\<close>

definition validateDomain :: "string \<Rightarrow> validation" where
  "validateDomain domain =
     (let labels = parseLabels domain
      in if length labels = 0 then \<lparr>valid = False, error = Some ''Domain cannot be empty''\<rparr>
         else if length labels > MAX_SUBDOMAIN_DEPTH
         then \<lparr>valid = False, error = Some ''Domain exceeds maximum depth of 127''\<rparr>
         else (case labelLoop labels of
                 Some failure \<Rightarrow> failure
               | None \<Rightarrow> \<lparr>valid = True, error = None\<rparr>))"

section \<open>The metadata builder and the character path\<close>

text \<open>
  A string used as a condition is true when it is present and not empty
  (\<open>if (options.description)\<close>, \<open>if (options.controllerRef)\<close>).
\<close>

definition truthy :: "string option \<Rightarrow> bool" where
  "truthy s = (case s of None \<Rightarrow> False | Some t \<Rightarrow> t \<noteq> [])"

definition createWaveMetadata ::
  "string \<Rightarrow> string option \<Rightarrow> 'z \<Rightarrow> Options \<Rightarrow> error + 'z WaveMetadata" where
  "createWaveMetadata nm parentRef zn options =
     (let validation = validateWaveName nm
      in if \<not> valid validation then Inl (InvalidName (error validation))
         else
          (let metadata =
                 \<lparr>v = 2,
                  type = ''wave_name'',
                  p = (if Options.mutable options \<noteq> Some False
                       then WAVE_NAME else WAVE_NAME_IMMUTABLE),
                  WaveMetadata.name = nm,
                  desc = None,
                  app = \<lparr>namespace = NAMESPACE, schema = VERSION,
                         data = \<lparr>WaveNameData.name = nm, parent = parentRef, zone = zn\<rparr>\<rparr>,
                  WaveMetadata.mutable = None\<rparr>;
               metadata = (if truthy (description options)
                           then metadata\<lparr>desc := description options\<rparr> else metadata);
               metadata =
                 (if Options.mutable options \<noteq> Some False
                  then metadata\<lparr>WaveMetadata.mutable :=
                         Some \<lparr>allowed = True,
                               controller = (if truthy (controllerRef options)
                                             then controllerRef options else None),
                               fields_mut = [''/app/data/zone'']\<rparr>\<rparr>
                  else metadata)
           in Inr metadata))"

text \<open>
  The \<open>map\<close> of \<open>getCharacterPath\<close> over the code units: an entry per unit, and the
  whole call throws what the first failing \<open>charToIndex\<close> throws.
\<close>

fun pathEntries :: "string list \<Rightarrow> error + CharacterPathEntry list" where
  "pathEntries [] = Inr []"
| "pathEntries (ch # rest) =
     (case charToIndex ch of
        Inl e \<Rightarrow> Inl e
      | Inr i \<Rightarrow>
         (case charToOutputIndex ch of
            Inl e \<Rightarrow> Inl e
          | Inr oi \<Rightarrow>
             (case pathEntries rest of
                Inl e \<Rightarrow> Inl e
              | Inr entries \<Rightarrow> Inr (\<lparr>char = ch, index = i, outputIndex = oi\<rparr> # entries))))"

definition getCharacterPath :: "string \<Rightarrow> error + CharacterPathEntry list" where
  "getCharacterPath nm =
     (let validation = validateWaveName nm
      in if \<not> valid validation then Inl (InvalidName (error validation))
         else pathEntries (split_units (toLowerCase nm)))"

section \<open>Numbers and the size estimate\<close>

text \<open>
  A JavaScript number is an IEEE 754 double. \<open>estimateResolutionSize\<close> is read here on
  natural numbers: a number is \<open>Some n\<close> for a natural \<open>n\<close> that a double holds, and
  \<open>None\<close> for a result that is not finite. An addition or a multiplication of two such
  numbers returns the double nearest to the exact result, a tie going to the even
  significand of 53 bits, and a result of \<open>2 ^ 1024\<close> or more is not finite.
\<close>

fun bitLength :: "nat \<Rightarrow> nat" where
  "bitLength n = (if n = 0 then 0 else Suc (bitLength (n div 2)))"

declare bitLength.simps [simp del]

definition roundToDouble :: "nat \<Rightarrow> nat" where
  "roundToDouble n =
     (let e = bitLength n - 53; q = n div 2 ^ e; r = n mod 2 ^ e
      in if 2 * r < 2 ^ e \<or> (2 * r = 2 ^ e \<and> even q) then q * 2 ^ e else (q + 1) * 2 ^ e)"

definition toNumber :: "nat \<Rightarrow> nat option" where
  "toNumber n = (let m = roundToDouble n in if m < 2 ^ 1024 then Some m else None)"

definition num_add :: "nat option \<Rightarrow> nat option \<Rightarrow> nat option" where
  "num_add a b = (case a of None \<Rightarrow> None
                  | Some x \<Rightarrow> (case b of None \<Rightarrow> None | Some y \<Rightarrow> toNumber (x + y)))"

definition num_mul :: "nat option \<Rightarrow> nat option \<Rightarrow> nat option" where
  "num_mul a b = (case a of None \<Rightarrow> None
                  | Some x \<Rightarrow> (case b of None \<Rightarrow> None | Some y \<Rightarrow> toNumber (x * y)))"

text \<open>
  \<open>estimateResolutionSize\<close>; a call that leaves \<open>updateCount\<close> out passes 0. The
  length of a string is a double by itself.
\<close>

definition estimateResolutionSize :: "string \<Rightarrow> nat \<Rightarrow> nat option" where
  "estimateResolutionSize nm updateCount =
     (let baseSize = Some 1024;
          pathLength = Some (length nm);
          updateSize = num_mul (Some updateCount) (Some 500)
      in num_add (num_mul (num_add pathLength (Some 1)) baseSize) updateSize)"

section \<open>Facts about the combination validator\<close>

lemmas glyph_ids =
  GLYPH_FT_def GLYPH_NFT_def GLYPH_DAT_def GLYPH_DMINT_def GLYPH_MUT_def GLYPH_BURN_def
  GLYPH_CONTAINER_def GLYPH_ENCRYPTED_def GLYPH_TIMELOCK_def GLYPH_AUTHORITY_def
  GLYPH_WAVE_def

lemma includes_set: "arr_includes xs x \<longleftrightarrow> x \<in> set xs"
  by (induction xs) auto

lemma exclusionLoop_None:
  "exclusionLoop ex ps = None \<longleftrightarrow> (\<forall>(a, b) \<in> set ex. \<not> (a \<in> set ps \<and> b \<in> set ps))"
  by (induction ex ps rule: exclusionLoop.induct) (auto simp: includes_set)

lemma exclusionLoop_Some: "exclusionLoop ex ps = Some r \<Longrightarrow> \<not> valid r"
  by (induction ex ps rule: exclusionLoop.induct) (auto split: if_splits)

lemma requiredLoop_None:
  "requiredLoop pr rs ps = None \<longleftrightarrow> set rs \<subseteq> set ps"
  by (induction pr rs ps rule: requiredLoop.induct) (auto simp: includes_set)

lemma requiredLoop_Some: "requiredLoop pr rs ps = Some r \<Longrightarrow> \<not> valid r"
  by (induction pr rs ps rule: requiredLoop.induct) (auto split: if_splits)

lemma requiredLoop_Some_missing: "requiredLoop pr rs ps = Some r \<Longrightarrow> \<not> set rs \<subseteq> set ps"
  using requiredLoop_None [of pr rs ps] by simp

lemma requirementsLoop_None:
  "requirementsLoop qs ps = None \<longleftrightarrow>
     (\<forall>q \<in> set qs. \<forall>rs. PROTOCOL_REQUIREMENTS q = Some rs \<longrightarrow> set rs \<subseteq> set ps)"
proof (induction qs)
  case Nil
  then show ?case by simp
next
  case (Cons q qs)
  show ?case
  proof (cases "PROTOCOL_REQUIREMENTS q")
    case None
    then show ?thesis using Cons.IH by simp
  next
    case (Some rs)
    show ?thesis
    proof (cases "requiredLoop q rs ps")
      case None
      then have "set rs \<subseteq> set ps" by (simp add: requiredLoop_None)
      then show ?thesis using None Some Cons.IH by simp
    next
      case (Some r)
      then show ?thesis
        using \<open>PROTOCOL_REQUIREMENTS q = Some rs\<close> requiredLoop_Some_missing [OF Some] by auto
    qed
  qed
qed

lemma requirementsLoop_Some: "requirementsLoop qs ps = Some r \<Longrightarrow> \<not> valid r"
  by (induction qs ps rule: requirementsLoop.induct)
     (auto split: option.splits dest: requiredLoop_Some)

text \<open>
  An id of \<open>PROTOCOLS_REQUIRE_BASE\<close> on its own is already refused by another rule:
  each such id but Burn requires an id different from itself, and Burn alone has neither
  FT nor NFT beside it.
\<close>

lemma require_base_alone:
  assumes "x \<in> set PROTOCOLS_REQUIRE_BASE"
  shows "\<not> acceptable {x}"
proof -
  from assms have "x = GLYPH_BURN \<or>
      (\<exists>rs. PROTOCOL_REQUIREMENTS x = Some rs \<and> hd rs \<in> set rs \<and> hd rs \<noteq> x)"
    by (auto simp: PROTOCOLS_REQUIRE_BASE_def PROTOCOL_REQUIREMENTS_def glyph_ids)
  then show ?thesis
  proof
    assume "x = GLYPH_BURN"
    then show ?thesis by (simp add: acceptable_def glyph_ids)
  next
    assume "\<exists>rs. PROTOCOL_REQUIREMENTS x = Some rs \<and> hd rs \<in> set rs \<and> hd rs \<noteq> x"
    then show ?thesis by (auto simp: acceptable_def)
  qed
qed

lemma validateProtocols_valid: "valid (validateProtocols ps) \<longleftrightarrow> acceptable (set ps)"
proof (cases "exclusionLoop PROTOCOL_EXCLUSIONS ps")
  case (Some r)
  then show ?thesis
    using exclusionLoop_Some [OF Some] exclusionLoop_None [of PROTOCOL_EXCLUSIONS ps]
    by (auto simp: validateProtocols_def acceptable_def)
next
  case None
  note ex = this
  show ?thesis
  proof (cases "requirementsLoop ps ps")
    case (Some r)
    then show ?thesis
      using ex requirementsLoop_Some [OF Some] requirementsLoop_None [of ps ps]
      by (auto simp: validateProtocols_def acceptable_def)
  next
    case None
    note rq = this
    have pre: "(\<forall>(a, b) \<in> set PROTOCOL_EXCLUSIONS. \<not> (a \<in> set ps \<and> b \<in> set ps))"
      "(\<forall>q \<in> set ps. \<forall>rs. PROTOCOL_REQUIREMENTS q = Some rs \<longrightarrow> set rs \<subseteq> set ps)"
      using ex rq by (simp_all add: exclusionLoop_None requirementsLoop_None)
    show ?thesis
    proof (cases "length ps = 1 \<and> arr_includes PROTOCOLS_REQUIRE_BASE (ps ! 0)")
      case True
      then obtain x where x: "ps = [x]" "x \<in> set PROTOCOLS_REQUIRE_BASE"
        by (cases ps) (auto simp: includes_set)
      then have "\<not> acceptable (set ps)"
        using require_base_alone [of x] by simp
      then show ?thesis
        using ex rq True by (simp add: validateProtocols_def)
    next
      case False
      then show ?thesis
        using ex rq pre by (auto simp: validateProtocols_def acceptable_def includes_set)
    qed
  qed
qed

lemma validateProtocols_set:
  "set ps = set qs \<Longrightarrow> valid (validateProtocols ps) = valid (validateProtocols qs)"
  by (simp add: validateProtocols_valid)

section \<open>Claims about the combination validator\<close>

text \<open>
  C3. Every list of protocol ids that contains Burn (6) and neither Fungible (1) nor
  Non-Fungible (2) is refused by \<open>validateProtocols\<close>, whatever else it contains;
  \<open>[BURN, MUT]\<close> is such a list.
\<close>

theorem burn_without_ft_nft_rejected:
  assumes "GLYPH_BURN \<in> set protocols"
    and "GLYPH_FT \<notin> set protocols"
    and "GLYPH_NFT \<notin> set protocols"
  shows "\<not> valid (validateProtocols protocols)"
  using assms by (simp add: validateProtocols_valid acceptable_def)

theorem burn_without_ft_nft_rejected_witness:
  "\<not> valid (validateProtocols [GLYPH_BURN, GLYPH_MUT]) \<and>
   \<not> valid (validateProtocols [6, 5, 5, 3])"
  using burn_without_ft_nft_rejected [of "[GLYPH_BURN, GLYPH_MUT]"]
    burn_without_ft_nft_rejected [of "[6, 5, 5, 3]"]
  by (simp add: glyph_ids)

text \<open>
  C4. Removing duplicate ids from the input never changes the verdict of
  \<open>validateProtocols\<close>: the verdict on a list equals the verdict on the list without its
  duplicates (on \<open>remdups\<close> of it, and on every duplicate-free list of the same ids,
  in whatever order), although the cannot-exist-alone rule looks at the length of the list.
\<close>

theorem validateProtocols_remdups:
  "valid (validateProtocols l) = valid (validateProtocols (remdups l)) \<and>
   (distinct l' \<and> set l' = set l \<longrightarrow>
      valid (validateProtocols l) = valid (validateProtocols l'))"
  by (simp add: validateProtocols_valid)

theorem validateProtocols_remdups_witness:
  "valid (validateProtocols [5, 2, 5, 2]) = valid (validateProtocols [2, 5]) \<and>
   valid (validateProtocols [6, 6]) = valid (validateProtocols [6])"
proof -
  have "distinct [2, 5 :: int] \<and> set [2, 5 :: int] = set [5, 2, 5, 2]"
    by auto
  moreover have "distinct [6 :: int] \<and> set [6 :: int] = set [6, 6]"
    by auto
  ultimately show ?thesis
    using validateProtocols_remdups [of "[5, 2, 5, 2]" "[2, 5]"]
      validateProtocols_remdups [of "[6, 6]" "[6]"]
    by blast
qed

section \<open>Facts about strings and the character codec\<close>

lemma startsWith_single: "startsWith s [c] \<longleftrightarrow> (s \<noteq> [] \<and> hd s = c)"
  by (cases s) (auto simp: startsWith_def)

lemma indexOf_single_Cons:
  "indexOf (d # s) [c] = (if d = c then 0 else if indexOf s [c] = - 1 then - 1 else indexOf s [c] + 1)"
  by (simp add: startsWith_def Let_def)

lemma indexOf_single_Nil: "indexOf [] [c] = - 1"
  by simp

lemma indexOf_single_range: "indexOf s [c] = - 1 \<or> (0 \<le> indexOf s [c] \<and> indexOf s [c] < int (length s))"
  by (induction s) (auto simp: indexOf_single_Nil indexOf_single_Cons simp del: indexOf.simps)

lemma indexOf_single_found: "indexOf s [c] \<noteq> - 1 \<longleftrightarrow> c \<in> set s"
proof (induction s)
  case Nil
  then show ?case by simp
next
  case (Cons d s)
  then show ?case
    using indexOf_single_range [of s c]
    by (auto simp: indexOf_single_Cons simp del: indexOf.simps)
qed

lemma indexOf_single_nth:
  "indexOf s [c] \<noteq> - 1 \<Longrightarrow> s ! nat (indexOf s [c]) = c"
proof (induction s)
  case Nil
  then show ?case by simp
next
  case (Cons d s)
  show ?case
  proof (cases "d = c")
    case True
    then show ?thesis by (simp add: indexOf_single_Cons del: indexOf.simps)
  next
    case False
    with Cons.prems have ne: "indexOf s [c] \<noteq> - 1"
      by (simp add: indexOf_single_Cons del: indexOf.simps split: if_splits)
    then have "0 \<le> indexOf s [c]" using indexOf_single_range [of s c] by auto
    then have "nat (indexOf s [c] + 1) = Suc (nat (indexOf s [c]))" by simp
    then show ?thesis using False ne Cons.IH
      by (simp add: indexOf_single_Cons del: indexOf.simps)
  qed
qed

lemma indexOf_single_distinct:
  "distinct s \<Longrightarrow> n < length s \<Longrightarrow> indexOf s [s ! n] = int n"
proof (induction s arbitrary: n)
  case Nil
  then show ?case by simp
next
  case (Cons d s)
  show ?case
  proof (cases n)
    case 0
    then show ?thesis by (simp add: indexOf_single_Cons del: indexOf.simps)
  next
    case (Suc m)
    with Cons.prems have m: "m < length s" "distinct s" "d \<noteq> s ! m" by auto
    then have "indexOf s [s ! m] = int m" using Cons.IH by simp
    then show ?thesis using Suc m
      by (simp add: indexOf_single_Cons del: indexOf.simps)
  qed
qed

lemma str_includes_single: "str_includes s [c] \<longleftrightarrow> c \<in> set s"
  by (simp add: str_includes_def indexOf_single_found)

lemma WAVE_CHARS_distinct: "distinct WAVE_CHARS"
  by (simp add: WAVE_CHARS_def)

lemma WAVE_CHARS_length: "length WAVE_CHARS = 37"
  by (simp add: WAVE_CHARS_def)

lemma lowerChar_WAVE_CHARS: "c \<in> set WAVE_CHARS \<Longrightarrow> lowerChar c = c"
  by (auto simp: WAVE_CHARS_def lowerChar_def)


lemma charToIndex_member:
  assumes "lowerChar c \<in> set WAVE_CHARS"
  shows "charToIndex [c] = Inr (indexOf WAVE_CHARS [lowerChar c])"
    and "0 \<le> indexOf WAVE_CHARS [lowerChar c]"
    and "indexOf WAVE_CHARS [lowerChar c] < 37"
    and "WAVE_CHARS ! nat (indexOf WAVE_CHARS [lowerChar c]) = lowerChar c"
proof -
  have ne: "indexOf WAVE_CHARS [lowerChar c] \<noteq> - 1"
    using assms by (simp add: indexOf_single_found)
  then show "charToIndex [c] = Inr (indexOf WAVE_CHARS [lowerChar c])"
    by (simp add: charToIndex_def toLowerCase_def)
  show "0 \<le> indexOf WAVE_CHARS [lowerChar c]" "indexOf WAVE_CHARS [lowerChar c] < 37"
    using ne indexOf_single_range [of WAVE_CHARS "lowerChar c"]
    by (simp_all add: WAVE_CHARS_length)
  show "WAVE_CHARS ! nat (indexOf WAVE_CHARS [lowerChar c]) = lowerChar c"
    using ne by (rule indexOf_single_nth)
qed

lemma charToIndex_nth:
  assumes "n < 37"
  shows "charToIndex [WAVE_CHARS ! n] = Inr (int n)"
proof -
  have mem: "WAVE_CHARS ! n \<in> set WAVE_CHARS"
    using assms by (simp add: WAVE_CHARS_length)
  have "indexOf WAVE_CHARS [WAVE_CHARS ! n] = int n"
    using assms by (simp add: indexOf_single_distinct WAVE_CHARS_distinct WAVE_CHARS_length)
  then show ?thesis
    using mem by (simp add: charToIndex_def toLowerCase_def lowerChar_WAVE_CHARS)
qed

text \<open>
  C5. The codec functions invert each other on their valid domains: for every integer
  \<open>i\<close> from 1 to 37, \<open>outputIndexToChar i\<close> returns a character whose
  \<open>charToOutputIndex\<close> is \<open>i\<close> again; and for every single character \<open>c\<close>
  whose lowercase form is in the alphabet, \<open>charToOutputIndex\<close> returns an index whose
  \<open>outputIndexToChar\<close> is the lowercase form of \<open>c\<close>. Neither call throws there.
\<close>

theorem codec_round_trip:
  "(1 \<le> i \<and> i \<le> 37 \<longrightarrow>
      (\<exists>ch. outputIndexToChar i = Inr ch \<and> charToOutputIndex ch = Inr i)) \<and>
   (lowerChar c \<in> set WAVE_CHARS \<longrightarrow>
      (\<exists>k. charToOutputIndex [c] = Inr k \<and> outputIndexToChar k = Inr (toLowerCase [c])))"
proof (intro conjI impI)
  assume i: "1 \<le> i \<and> i \<le> 37"
  then have n: "nat (i - 1) < 37" by arith
  have "outputIndexToChar i = Inr [WAVE_CHARS ! nat (i - 1)]"
    using i by (simp add: outputIndexToChar_def indexToChar_def WAVE_CHARS_length)
  moreover have "charToOutputIndex [WAVE_CHARS ! nat (i - 1)] = Inr i"
    using i charToIndex_nth [OF n] by (simp add: charToOutputIndex_def)
  ultimately show "\<exists>ch. outputIndexToChar i = Inr ch \<and> charToOutputIndex ch = Inr i"
    by blast
next
  assume c: "lowerChar c \<in> set WAVE_CHARS"
  let ?k = "indexOf WAVE_CHARS [lowerChar c]"
  note facts = charToIndex_member [OF c]
  have "charToOutputIndex [c] = Inr (?k + 1)"
    using facts(1) by (simp add: charToOutputIndex_def)
  moreover have "outputIndexToChar (?k + 1) = Inr (toLowerCase [c])"
    using facts(2,3,4)
    by (simp add: outputIndexToChar_def indexToChar_def WAVE_CHARS_length toLowerCase_def)
  ultimately show "\<exists>k. charToOutputIndex [c] = Inr k \<and> outputIndexToChar k = Inr (toLowerCase [c])"
    by blast
qed

theorem codec_round_trip_witness:
  "(\<exists>ch. outputIndexToChar 12 = Inr ch \<and> charToOutputIndex ch = Inr 12) \<and>
   (\<exists>k. charToOutputIndex ''Q'' = Inr k \<and> outputIndexToChar k = Inr ''q'')"
proof -
  have "lowerChar CHR ''Q'' \<in> set WAVE_CHARS"
    by (simp add: lowerChar_def WAVE_CHARS_def char_of_eq_iff)
  moreover have "toLowerCase ''Q'' = ''q''"
    by (simp add: toLowerCase_def lowerChar_def char_of_eq_iff)
  ultimately show ?thesis
    using codec_round_trip [of 12 "CHR ''Q''"] by simp
qed

section \<open>Facts about name and domain validation, the builders and the estimate\<close>

lemma endsWith_single: "endsWith s [c] \<longleftrightarrow> (s \<noteq> [] \<and> last s = c)"
proof (cases s rule: rev_cases)
  case Nil
  then show ?thesis by (simp add: endsWith_def)
next
  case (snoc ys y)
  then show ?thesis by (auto simp: endsWith_def)
qed

lemma str_includes_Nil: "str_includes [] (a # pat) = False"
  by (simp add: str_includes_def)

lemma indexOf_lower_bound: "- 1 \<le> indexOf s pat"
  by (induction s) (auto simp: Let_def)

lemma str_includes_Cons:
  "str_includes (c # s) pat \<longleftrightarrow> startsWith (c # s) pat \<or> str_includes s pat"
  using indexOf_lower_bound [of s pat] by (auto simp: str_includes_def Let_def)

lemma startsWith_xn: "startsWith s ''xn--'' \<longleftrightarrow> take 4 s = ''xn--''"
proof -
  have "length ''xn--'' = 4" by simp
  then show ?thesis unfolding startsWith_def by (simp only:)
qed

lemma startsWith_two:
  "startsWith s [a, b] \<longleftrightarrow> (Suc 0 < length s \<and> s ! 0 = a \<and> s ! Suc 0 = b)"
proof (cases s)
  case Nil
  then show ?thesis by (simp add: startsWith_def)
next
  case (Cons x xs)
  then show ?thesis by (cases xs) (auto simp: startsWith_def)
qed

lemma str_includes_two:
  "str_includes s [a, b] \<longleftrightarrow> (\<exists>i. Suc i < length s \<and> s ! i = a \<and> s ! Suc i = b)"
proof (induction s)
  case Nil
  then show ?case by (simp add: str_includes_Nil)
next
  case (Cons c s)
  show ?case (is "?L \<longleftrightarrow> ?R")
  proof
    assume ?L
    then consider "startsWith (c # s) [a, b]" | "str_includes s [a, b]"
      by (auto simp: str_includes_Cons)
    then show ?R
    proof cases
      case 1
      then have "Suc 0 < length (c # s) \<and> (c # s) ! 0 = a \<and> (c # s) ! Suc 0 = b"
        by (simp only: startsWith_two)
      then show ?thesis by blast
    next
      case 2
      then obtain i where "Suc i < length s" "s ! i = a" "s ! Suc i = b"
        using Cons.IH by blast
      then have "Suc (Suc i) < length (c # s) \<and> (c # s) ! Suc i = a \<and> (c # s) ! Suc (Suc i) = b"
        by simp
      then show ?thesis by blast
    qed
  next
    assume ?R
    then obtain i where i: "Suc i < length (c # s)" "(c # s) ! i = a" "(c # s) ! Suc i = b"
      by blast
    show ?L
    proof (cases i)
      case 0
      then have "startsWith (c # s) [a, b]"
        using i by (simp only: startsWith_two)
      then show ?thesis by (simp add: str_includes_Cons)
    next
      case (Suc j)
      then have "Suc j < length s \<and> s ! j = a \<and> s ! Suc j = b" using i by simp
      then have "str_includes s [a, b]" using Cons.IH by blast
      then show ?thesis by (simp add: str_includes_Cons)
    qed
  qed
qed

lemma invalidCharLoop_None: "invalidCharLoop s = None \<longleftrightarrow> set s \<subseteq> set WAVE_CHARS"
  by (induction s) (auto simp: str_includes_single)

lemma invalidCharLoop_Some: "invalidCharLoop s = Some r \<Longrightarrow> \<not> valid r"
  by (induction s) (auto split: if_splits)

lemma validateWaveName_valid_iff:
  "valid (validateWaveName nm) \<longleftrightarrow>
     nm \<noteq> [] \<and> length nm \<le> 63 \<and> hd nm \<noteq> CHR ''-'' \<and> last nm \<noteq> CHR ''-'' \<and>
     (str_includes nm ''--'' \<longrightarrow> startsWith nm ''xn--'') \<and>
     set (toLowerCase nm) \<subseteq> set WAVE_CHARS"
proof (cases "invalidCharLoop (toLowerCase nm)")
  case None
  then show ?thesis
    using invalidCharLoop_None [of "toLowerCase nm"]
    by (auto simp: validateWaveName_def MAX_NAME_LENGTH_def startsWith_single endsWith_single)
next
  case (Some r)
  then show ?thesis
    using invalidCharLoop_None [of "toLowerCase nm"] invalidCharLoop_Some [OF Some]
    by (auto simp: validateWaveName_def MAX_NAME_LENGTH_def startsWith_single endsWith_single)
qed

lemma validateWaveName_valid_result:
  "valid (validateWaveName nm) \<Longrightarrow> validateWaveName nm = \<lparr>valid = True, error = None\<rparr>"
  using invalidCharLoop_Some [of "toLowerCase nm"]
  by (auto simp: validateWaveName_def split: if_splits option.splits)

lemma toLowerCase_WAVE_CHARS: "set s \<subseteq> set WAVE_CHARS \<Longrightarrow> toLowerCase s = s"
  by (induction s) (auto simp: toLowerCase_def lowerChar_WAVE_CHARS)

text \<open>
  C7. \<open>validateWaveName\<close> enforces the limit of 63 characters: every non-empty string
  longer than 63 is refused with the message that names the maximum length, and a string of
  exactly 63 characters of the alphabet that neither starts nor ends with a hyphen and has
  no two hyphens in a row (or starts with \<open>xn--\<close>) is accepted; 63 times \<open>a\<close> is one.
\<close>

theorem name_length_limit:
  "(nm \<noteq> [] \<and> length nm > 63 \<longrightarrow>
      validateWaveName nm = \<lparr>valid = False, error = Some ''Name exceeds maximum length of 63''\<rparr>) \<and>
   (length nm = 63 \<and> set nm \<subseteq> set WAVE_CHARS \<and>
    hd nm \<noteq> CHR ''-'' \<and> last nm \<noteq> CHR ''-'' \<and>
    ((\<forall>i. Suc i < length nm \<longrightarrow> nm ! i \<noteq> CHR ''-'' \<or> nm ! Suc i \<noteq> CHR ''-'') \<or>
     take 4 nm = ''xn--'') \<longrightarrow>
      validateWaveName nm = \<lparr>valid = True, error = None\<rparr>)"
proof (intro conjI impI)
  assume "nm \<noteq> [] \<and> length nm > 63"
  then show "validateWaveName nm =
      \<lparr>valid = False, error = Some ''Name exceeds maximum length of 63''\<rparr>"
    by (simp add: validateWaveName_def MAX_NAME_LENGTH_def)
next
  assume a: "length nm = 63 \<and> set nm \<subseteq> set WAVE_CHARS \<and>
    hd nm \<noteq> CHR ''-'' \<and> last nm \<noteq> CHR ''-'' \<and>
    ((\<forall>i. Suc i < length nm \<longrightarrow> nm ! i \<noteq> CHR ''-'' \<or> nm ! Suc i \<noteq> CHR ''-'') \<or>
     take 4 nm = ''xn--'')"
  then have "nm \<noteq> []" by auto
  moreover have "str_includes nm ''--'' \<longrightarrow> startsWith nm ''xn--''"
    using a by (auto simp: str_includes_two startsWith_xn)
  moreover have "set (toLowerCase nm) \<subseteq> set WAVE_CHARS"
    using a by (simp add: toLowerCase_WAVE_CHARS)
  ultimately have "valid (validateWaveName nm)"
    using a by (simp add: validateWaveName_valid_iff)
  then show "validateWaveName nm = \<lparr>valid = True, error = None\<rparr>"
    by (rule validateWaveName_valid_result)
qed

theorem name_length_limit_witness:
  "validateWaveName (replicate 64 CHR ''a'') =
      \<lparr>valid = False, error = Some ''Name exceeds maximum length of 63''\<rparr> \<and>
   validateWaveName (replicate 63 CHR ''a'') = \<lparr>valid = True, error = None\<rparr>"
proof -
  have "replicate 64 CHR ''a'' \<noteq> [] \<and> length (replicate 64 CHR ''a'') > 63"
    by simp
  moreover have "length (replicate 63 CHR ''a'') = 63 \<and>
    set (replicate 63 CHR ''a'') \<subseteq> set WAVE_CHARS \<and>
    hd (replicate 63 CHR ''a'') \<noteq> CHR ''-'' \<and> last (replicate 63 CHR ''a'') \<noteq> CHR ''-'' \<and>
    ((\<forall>i. Suc i < length (replicate 63 CHR ''a'') \<longrightarrow>
        replicate 63 CHR ''a'' ! i \<noteq> CHR ''-'' \<or> replicate 63 CHR ''a'' ! Suc i \<noteq> CHR ''-'') \<or>
     take 4 (replicate 63 CHR ''a'') = ''xn--'')"
    by (auto simp: WAVE_CHARS_def hd_replicate last_replicate)
  ultimately show ?thesis
    using name_length_limit [of "replicate 64 CHR ''a''"]
      name_length_limit [of "replicate 63 CHR ''a''"]
    by blast
qed

text \<open>
  What the consecutive-hyphens rule of the source decides: among the names that pass the
  four rules before it and contain \<open>--\<close>, the error is returned exactly for those that
  do not start with \<open>xn--\<close> as written, in lowercase.
\<close>

lemma invalidCharLoop_message:
  "invalidCharLoop s = Some r \<Longrightarrow>
   \<exists>c. c \<in> set s \<and> c \<notin> set WAVE_CHARS \<and>
       r = \<lparr>valid = False, error = Some (''Invalid character: \"'' @ [c] @ ''\"'')\<rparr>"
  by (induction s) (auto simp: str_includes_single split: if_splits)

lemma consecutive_hyphens_rule:
  assumes "nm \<noteq> []" "length nm \<le> 63" "hd nm \<noteq> CHR ''-''" "last nm \<noteq> CHR ''-''"
    and "str_includes nm ''--''"
  shows "validateWaveName nm =
           \<lparr>valid = False,
            error = Some ''Name cannot contain consecutive hyphens (except Punycode prefix)''\<rparr>
         \<longleftrightarrow> \<not> startsWith nm ''xn--''"
proof (cases "startsWith nm ''xn--''")
  case False
  then show ?thesis
    using assms
    by (simp add: validateWaveName_def MAX_NAME_LENGTH_def startsWith_single endsWith_single)
next
  case True
  show ?thesis
  proof (cases "invalidCharLoop (toLowerCase nm)")
    case None
    then show ?thesis
      using assms True
      by (simp add: validateWaveName_def MAX_NAME_LENGTH_def startsWith_single endsWith_single)
  next
    case (Some r)
    then obtain c where "r = \<lparr>valid = False, error = Some (''Invalid character: \"'' @ [c] @ ''\"'')\<rparr>"
      using invalidCharLoop_message by blast
    then show ?thesis
      using assms True Some
      by (simp add: validateWaveName_def MAX_NAME_LENGTH_def startsWith_single endsWith_single)
  qed
qed

text \<open>
  C1. The claim: among the names that pass the empty, length and boundary-hyphen rules
  and contain \<open>--\<close>, the consecutive-hyphens error is returned exactly for those that do
  not start with \<open>xn--\<close> compared without regard to case, so that \<open>XN--\<close> is exempt. The
  source compares the prefix as written: the name \<open>XN--WGV71A\<close>, which \<open>isPunycode\<close>
  recognises, is refused with the consecutive-hyphens error, while \<open>xn--wgv71a\<close> is
  accepted.
\<close>

theorem uppercase_punycode_prefix_rejected:
  "isPunycode ''XN--WGV71A'' \<and>
   validateWaveName ''XN--WGV71A'' =
     \<lparr>valid = False,
      error = Some ''Name cannot contain consecutive hyphens (except Punycode prefix)''\<rparr> \<and>
   validateWaveName ''xn--wgv71a'' = \<lparr>valid = True, error = None\<rparr>"
  by code_simp

lemma pathEntries_units:
  "set s \<subseteq> set WAVE_CHARS \<Longrightarrow>
   pathEntries (split_units s) =
     Inr (map (\<lambda>c. \<lparr>char = [c], index = indexOf WAVE_CHARS [c],
                       outputIndex = indexOf WAVE_CHARS [c] + 1\<rparr>) s)"
proof (induction s)
  case Nil
  then show ?case by (simp add: split_units_def)
next
  case (Cons c s)
  then have c: "lowerChar c \<in> set WAVE_CHARS" "lowerChar c = c"
    by (simp_all add: lowerChar_WAVE_CHARS)
  have "charToIndex [c] = Inr (indexOf WAVE_CHARS [c])"
    using charToIndex_member(1) [OF c(1)] c(2) by simp
  then show ?case
    using Cons by (simp add: split_units_def charToOutputIndex_def)
qed

lemma charToIndex_in_alphabet:
  "c \<in> set WAVE_CHARS \<Longrightarrow> charToIndex [c] = Inr (indexOf WAVE_CHARS [c])"
  using charToIndex_member(1) [of c] by (simp add: lowerChar_WAVE_CHARS)

text \<open>
  C9. \<open>getCharacterPath\<close> and \<open>createWaveMetadata\<close> throw exactly when
  \<open>validateWaveName\<close> refuses the name. For a valid name \<open>getCharacterPath\<close> does not
  throw and returns one entry per character of the lowercased name, in order, each with
  \<open>index\<close> the \<open>charToIndex\<close> of its character and \<open>outputIndex\<close> one more.
\<close>

theorem builders_throw_iff_name_invalid:
  "(isl (getCharacterPath nm) \<longleftrightarrow> \<not> valid (validateWaveName nm)) \<and>
   (isl (createWaveMetadata nm parentRef zn options) \<longleftrightarrow> \<not> valid (validateWaveName nm)) \<and>
   (valid (validateWaveName nm) \<longrightarrow>
      (\<exists>path. getCharacterPath nm = Inr path \<and>
         length path = length (toLowerCase nm) \<and>
         (\<forall>k < length path.
            char (path ! k) = [toLowerCase nm ! k] \<and>
            charToIndex (char (path ! k)) = Inr (index (path ! k)) \<and>
            outputIndex (path ! k) = index (path ! k) + 1)))"
proof (cases "valid (validateWaveName nm)")
  case False
  then show ?thesis
    by (simp add: getCharacterPath_def createWaveMetadata_def)
next
  case True
  then have sub: "set (toLowerCase nm) \<subseteq> set WAVE_CHARS"
    by (simp add: validateWaveName_valid_iff)
  let ?entry = "\<lambda>c. \<lparr>char = [c], index = indexOf WAVE_CHARS [c],
                       outputIndex = indexOf WAVE_CHARS [c] + 1\<rparr>"
  have path: "getCharacterPath nm = Inr (map ?entry (toLowerCase nm))"
    using True pathEntries_units [OF sub] by (simp add: getCharacterPath_def)
  have entries: "\<forall>k < length (map ?entry (toLowerCase nm)).
      char (map ?entry (toLowerCase nm) ! k) = [toLowerCase nm ! k] \<and>
      charToIndex (char (map ?entry (toLowerCase nm) ! k)) =
        Inr (index (map ?entry (toLowerCase nm) ! k)) \<and>
      outputIndex (map ?entry (toLowerCase nm) ! k) =
        index (map ?entry (toLowerCase nm) ! k) + 1"
  proof (intro allI impI)
    fix k
    assume "k < length (map ?entry (toLowerCase nm))"
    then have k: "k < length (toLowerCase nm)" by simp
    then have "toLowerCase nm ! k \<in> set WAVE_CHARS"
      using sub nth_mem by blast
    then show "char (map ?entry (toLowerCase nm) ! k) = [toLowerCase nm ! k] \<and>
      charToIndex (char (map ?entry (toLowerCase nm) ! k)) =
        Inr (index (map ?entry (toLowerCase nm) ! k)) \<and>
      outputIndex (map ?entry (toLowerCase nm) ! k) =
        index (map ?entry (toLowerCase nm) ! k) + 1"
      using k by (simp add: charToIndex_in_alphabet)
  qed
  have "\<not> isl (createWaveMetadata nm parentRef zn options)"
    using True by (simp add: createWaveMetadata_def Let_def)
  then show ?thesis
    using True path entries by auto
qed

theorem builders_throw_iff_name_invalid_witness:
  "getCharacterPath ''Ab'' =
     Inr [\<lparr>char = ''a'', index = 0, outputIndex = 1\<rparr>,
          \<lparr>char = ''b'', index = 1, outputIndex = 2\<rparr>] \<and>
   isl (getCharacterPath ''-bad'') \<and>
   isl (createWaveMetadata ''-bad'' None () \<lparr>Options.mutable = None, controllerRef = None, description = None\<rparr>) \<and>
   \<not> isl (createWaveMetadata ''Ab'' None () \<lparr>Options.mutable = None, controllerRef = None, description = None\<rparr>)"
proof -
  have ok: "valid (validateWaveName ''Ab'')" and bad: "\<not> valid (validateWaveName ''-bad'')"
    by code_simp+
  have path: "getCharacterPath ''Ab'' =
     Inr [\<lparr>char = ''a'', index = 0, outputIndex = 1\<rparr>,
          \<lparr>char = ''b'', index = 1, outputIndex = 2\<rparr>]"
    by code_simp
  show ?thesis
    using ok bad path
      builders_throw_iff_name_invalid [of "''Ab''" None "()" "\<lparr>Options.mutable = None, controllerRef = None, description = None\<rparr>"]
      builders_throw_iff_name_invalid [of "''-bad''" None "()" "\<lparr>Options.mutable = None, controllerRef = None, description = None\<rparr>"]
    by simp
qed

lemma str_split_not_Nil: "str_split sep s \<noteq> []"
  by (induction s) (auto split: list.splits)

lemma joinLabels_Cons: "rest \<noteq> [] \<Longrightarrow> joinLabels (l # rest) = l @ ''.'' @ joinLabels rest"
  by (cases rest) simp_all

lemma str_split_join: "joinLabels (str_split CHR ''.'' s) = s"
proof (induction s)
  case Nil
  then show ?case by simp
next
  case (Cons c s)
  show ?case
  proof (cases "c = CHR ''.''")
    case True
    then show ?thesis
      using Cons.IH by (simp add: joinLabels_Cons str_split_not_Nil)
  next
    case False
    obtain seg segs where sp: "str_split CHR ''.'' s = seg # segs"
      using str_split_not_Nil [of "CHR ''.''" s] by (cases "str_split CHR ''.'' s") auto
    show ?thesis
    proof (cases segs)
      case Nil
      then show ?thesis using False sp Cons.IH by simp
    next
      case (Cons a list)
      then show ?thesis using False sp Cons.IH by simp
    qed
  qed
qed

lemma str_split_no_sep: "seg \<in> set (str_split sep s) \<Longrightarrow> sep \<notin> set seg"
proof (induction s arbitrary: seg)
  case Nil
  then show ?case by simp
next
  case (Cons c s)
  then show ?case
    by (cases "str_split sep s") (auto split: if_splits)
qed

lemma labelLoop_None: "labelLoop ls = None \<longleftrightarrow> (\<forall>l \<in> set ls. valid (validateWaveName l))"
  by (induction ls) (auto simp: Let_def)

lemma labelLoop_Some: "labelLoop ls = Some r \<Longrightarrow> \<not> valid r"
  by (induction ls) (auto simp: Let_def split: if_splits)

lemma labelLoop_first:
  "find (\<lambda>l. \<not> valid (validateWaveName l)) ls = Some l \<Longrightarrow>
   labelLoop ls =
     Some \<lparr>valid = False,
           error = Some (''Invalid label \"'' @ l @ ''\": '' @ tpl (error (validateWaveName l)))\<rparr>"
  by (induction ls) (auto simp: Let_def split: if_splits)

lemma parseLabels_step: "parseLabels (''a.'' @ rest) = ''a'' # parseLabels rest"
  using str_split_not_Nil [of "CHR ''.''" rest]
  by (cases "str_split CHR ''.'' rest") (simp_all add: parseLabels_def)

lemma parseLabels_many: "parseLabels (concat (replicate n ''a.'')) = replicate n ''a''"
proof (induction n)
  case 0
  then show ?case by (simp add: parseLabels_def)
next
  case (Suc n)
  have "parseLabels (concat (replicate (Suc n) ''a.'')) =
        parseLabels (''a.'' @ concat (replicate n ''a.''))"
    by simp
  also have "\<dots> = ''a'' # parseLabels (concat (replicate n ''a.''))"
    by (rule parseLabels_step)
  finally show ?case using Suc.IH by simp
qed

text \<open>
  C8. \<open>validateDomain\<close> works on the labels of its input: the input cut at every
  \<open>.\<close> with the empty segments dropped. It fails exactly when there is no label, when
  there are more than 127, or when \<open>validateWaveName\<close> refuses a label; the message is
  \<open>Domain cannot be empty\<close>, the maximum-depth message, or the one naming the first
  refused label, in this order of precedence. So \<open>a..b\<close> is valid, with the labels
  \<open>a\<close> and \<open>b\<close>, and the empty string is not.
\<close>

theorem validateDomain_outcomes:
  "(\<exists>segs. joinLabels segs = domain \<and> (\<forall>seg \<in> set segs. CHR ''.'' \<notin> set seg) \<and>
           parseLabels domain = filter (\<lambda>l. l \<noteq> []) segs) \<and>
   (valid (validateDomain domain) \<longleftrightarrow>
      \<not> (parseLabels domain = [] \<or> length (parseLabels domain) > 127 \<or>
         (\<exists>l \<in> set (parseLabels domain). \<not> valid (validateWaveName l)))) \<and>
   (parseLabels domain = [] \<longrightarrow>
      validateDomain domain = \<lparr>valid = False, error = Some ''Domain cannot be empty''\<rparr>) \<and>
   (length (parseLabels domain) > 127 \<longrightarrow>
      validateDomain domain =
        \<lparr>valid = False, error = Some ''Domain exceeds maximum depth of 127''\<rparr>) \<and>
   (parseLabels domain \<noteq> [] \<and> length (parseLabels domain) \<le> 127 \<longrightarrow>
      (\<forall>l. find (\<lambda>l. \<not> valid (validateWaveName l)) (parseLabels domain) = Some l \<longrightarrow>
         validateDomain domain =
           \<lparr>valid = False,
            error = Some (''Invalid label \"'' @ l @ ''\": '' @
                          tpl (error (validateWaveName l)))\<rparr>))"
proof (intro conjI)
  have "joinLabels (str_split CHR ''.'' domain) = domain \<and>
        (\<forall>seg \<in> set (str_split CHR ''.'' domain). CHR ''.'' \<notin> set seg) \<and>
        parseLabels domain = filter (\<lambda>l. l \<noteq> []) (str_split CHR ''.'' domain)"
    by (simp add: str_split_join str_split_no_sep parseLabels_def)
  then show "\<exists>segs. joinLabels segs = domain \<and> (\<forall>seg \<in> set segs. CHR ''.'' \<notin> set seg) \<and>
           parseLabels domain = filter (\<lambda>l. l \<noteq> []) segs"
    by blast
next
  show "valid (validateDomain domain) \<longleftrightarrow>
      \<not> (parseLabels domain = [] \<or> length (parseLabels domain) > 127 \<or>
         (\<exists>l \<in> set (parseLabels domain). \<not> valid (validateWaveName l)))"
  proof (cases "labelLoop (parseLabels domain)")
    case None
    then show ?thesis
      using labelLoop_None [of "parseLabels domain"]
      by (auto simp: validateDomain_def Let_def MAX_SUBDOMAIN_DEPTH_def)
  next
    case (Some r)
    then show ?thesis
      using labelLoop_None [of "parseLabels domain"] labelLoop_Some [OF Some]
      by (auto simp: validateDomain_def Let_def MAX_SUBDOMAIN_DEPTH_def)
  qed
next
  show "parseLabels domain = [] \<longrightarrow>
      validateDomain domain = \<lparr>valid = False, error = Some ''Domain cannot be empty''\<rparr>"
    by (simp add: validateDomain_def)
next
  show "length (parseLabels domain) > 127 \<longrightarrow>
      validateDomain domain =
        \<lparr>valid = False, error = Some ''Domain exceeds maximum depth of 127''\<rparr>"
    by (auto simp: validateDomain_def Let_def MAX_SUBDOMAIN_DEPTH_def)
next
  show "parseLabels domain \<noteq> [] \<and> length (parseLabels domain) \<le> 127 \<longrightarrow>
      (\<forall>l. find (\<lambda>l. \<not> valid (validateWaveName l)) (parseLabels domain) = Some l \<longrightarrow>
         validateDomain domain =
           \<lparr>valid = False,
            error = Some (''Invalid label \"'' @ l @ ''\": '' @
                          tpl (error (validateWaveName l)))\<rparr>)"
    by (auto simp: validateDomain_def Let_def MAX_SUBDOMAIN_DEPTH_def dest: labelLoop_first)
qed

theorem validateDomain_outcomes_witness:
  "valid (validateDomain ''a..b'') \<and> parseLabels ''a..b'' = [''a'', ''b''] \<and>
   validateDomain '''' = \<lparr>valid = False, error = Some ''Domain cannot be empty''\<rparr> \<and>
   validateDomain (concat (replicate 128 ''a.'')) =
     \<lparr>valid = False, error = Some ''Domain exceeds maximum depth of 127''\<rparr> \<and>
   validateDomain ''-a.b'' =
     \<lparr>valid = False, error = Some ''Invalid label \"-a\": Name cannot start with hyphen''\<rparr>"
proof -
  have labels: "parseLabels ''a..b'' = [''a'', ''b'']" "parseLabels '''' = []"
    "parseLabels ''-a.b'' = [''-a'', ''b'']"
    by code_simp+
  have many: "length (parseLabels (concat (replicate 128 ''a.''))) > 127"
    by (simp only: parseLabels_many) simp
  have names: "valid (validateWaveName ''a'')" "valid (validateWaveName ''b'')"
    "validateWaveName ''-a'' = \<lparr>valid = False, error = Some ''Name cannot start with hyphen''\<rparr>"
    by code_simp+
  have deep: "validateDomain (concat (replicate 128 ''a.'')) =
     \<lparr>valid = False, error = Some ''Domain exceeds maximum depth of 127''\<rparr>"
    using validateDomain_outcomes [of "concat (replicate 128 ''a.'')"] many by blast
  show ?thesis
    using validateDomain_outcomes [of "''a..b''"] validateDomain_outcomes [of "''''"]
      validateDomain_outcomes [of "''-a.b''"] deep
    by (simp add: labels names tpl_def)
qed

lemma createWaveMetadata_valid:
  "valid (validateWaveName nm) \<Longrightarrow>
   createWaveMetadata nm parentRef zn options =
     Inr \<lparr>v = 2, type = ''wave_name'',
          p = (if Options.mutable options \<noteq> Some False then [2, 5, 11] else [2, 11]),
          WaveMetadata.name = nm,
          desc = (if truthy (description options) then description options else None),
          app = \<lparr>namespace = ''rxd.wave'', schema = ''wave_name_v1'',
                 data = \<lparr>WaveNameData.name = nm, parent = parentRef, zone = zn\<rparr>\<rparr>,
          WaveMetadata.mutable =
            (if Options.mutable options \<noteq> Some False
             then Some \<lparr>allowed = True,
                        controller = (if truthy (controllerRef options)
                                      then controllerRef options else None),
                        fields_mut = [''/app/data/zone'']\<rparr>
             else None)\<rparr>"
  by (simp add: createWaveMetadata_def Let_def WAVE_NAME_def WAVE_NAME_IMMUTABLE_def
      NAMESPACE_def VERSION_def GLYPH_NFT_def GLYPH_MUT_def GLYPH_WAVE_def)

text \<open>
  C2. For every valid name, \<open>createWaveMetadata\<close> with \<open>options.mutable\<close> set to
  \<open>false\<close> returns a record whose protocol list is \<open>[2, 11]\<close> (NFT, WAVE), and
  \<open>validateProtocols\<close> refuses that very list, because WAVE requires MUT.
\<close>

theorem immutable_metadata_fails_validateProtocols:
  assumes "valid (validateWaveName nm)"
  shows "\<exists>md. createWaveMetadata nm parentRef zn (options\<lparr>Options.mutable := Some False\<rparr>) = Inr md \<and>
          p md = [2, 11] \<and> p md = [GLYPH_NFT, GLYPH_WAVE] \<and>
          validateProtocols (p md) =
            \<lparr>valid = False, error = Some ''Protocol GLYPH_WAVE requires GLYPH_MUT''\<rparr>"
proof -
  have "validateProtocols [2, 11] =
      \<lparr>valid = False, error = Some ''Protocol GLYPH_WAVE requires GLYPH_MUT''\<rparr>"
    by code_simp
  then show ?thesis
    using createWaveMetadata_valid [OF assms, of parentRef zn "options\<lparr>Options.mutable := Some False\<rparr>"]
    by (simp add: GLYPH_NFT_def GLYPH_WAVE_def)
qed

theorem immutable_metadata_fails_validateProtocols_witness:
  "\<exists>md. createWaveMetadata ''alice'' None ()
           \<lparr>Options.mutable = Some False, controllerRef = None, description = None\<rparr> = Inr md \<and>
        p md = [2, 11] \<and> \<not> valid (validateProtocols (p md))"
proof -
  have "valid (validateWaveName ''alice'')" by code_simp
  from immutable_metadata_fails_validateProtocols [OF this, of None "()"
      "\<lparr>Options.mutable = None, controllerRef = None, description = None\<rparr>"]
  show ?thesis by auto
qed

text \<open>
  C6, as amended. For a valid name \<open>createWaveMetadata\<close> returns a record chosen by the
  mutability flag: with \<open>options.mutable\<close> set to \<open>false\<close> its \<open>p\<close> is \<open>[2, 11]\<close> and it
  has no \<open>mutable\<close> block; otherwise (flag absent or \<open>true\<close>) its \<open>p\<close> is \<open>[2, 5, 11]\<close>
  and its \<open>mutable\<close> block has \<open>allowed: true\<close>, the fields \<open>["/app/data/zone"]\<close>, and
  the controller exactly when a \<^emph>\<open>non-empty\<close> \<open>controllerRef\<close> is supplied.
\<close>

theorem metadata_protocols_by_mutability:
  assumes "valid (validateWaveName nm)"
  shows "\<exists>md. createWaveMetadata nm parentRef zn options = Inr md \<and>
          (Options.mutable options = Some False \<longrightarrow>
             p md = [2, 11] \<and> WaveMetadata.mutable md = None) \<and>
          (Options.mutable options \<noteq> Some False \<longrightarrow>
             p md = [2, 5, 11] \<and>
             WaveMetadata.mutable md =
               Some \<lparr>allowed = True,
                     controller = (case controllerRef options of
                                     None \<Rightarrow> None
                                   | Some c \<Rightarrow> if c = [] then None else Some c),
                     fields_mut = [''/app/data/zone'']\<rparr>)"
  using createWaveMetadata_valid [OF assms, of parentRef zn options]
  by (auto simp: truthy_def split: option.splits)

theorem metadata_protocols_by_mutability_witness:
  "(\<exists>md. createWaveMetadata ''alice'' None ()
            \<lparr>Options.mutable = Some False, controllerRef = Some ''ref'', description = None\<rparr> = Inr md \<and>
         p md = [2, 11] \<and> WaveMetadata.mutable md = None) \<and>
   (\<exists>md. createWaveMetadata ''alice'' None ()
            \<lparr>Options.mutable = None, controllerRef = Some ''ref'', description = None\<rparr> = Inr md \<and>
         p md = [2, 5, 11] \<and>
         WaveMetadata.mutable md =
           Some \<lparr>allowed = True, controller = Some ''ref'', fields_mut = [''/app/data/zone'']\<rparr>)"
proof -
  have ok: "valid (validateWaveName ''alice'')" by code_simp
  show ?thesis
    using metadata_protocols_by_mutability [OF ok, of None "()"
        "\<lparr>Options.mutable = Some False, controllerRef = Some ''ref'', description = None\<rparr>"]
      metadata_protocols_by_mutability [OF ok, of None "()"
        "\<lparr>Options.mutable = None, controllerRef = Some ''ref'', description = None\<rparr>"]
    by simp
qed

text \<open>
  C6 as stated has the controller present whenever \<open>controllerRef\<close> is supplied. With
  the empty string supplied, the \<open>mutable\<close> block is attached without a controller.
\<close>

theorem empty_controllerRef_not_attached:
  "createWaveMetadata ''alice'' None ()
     \<lparr>Options.mutable = Some True, controllerRef = Some '''', description = None\<rparr> =
   Inr \<lparr>v = 2, type = ''wave_name'', p = [2, 5, 11], WaveMetadata.name = ''alice'',
        desc = None,
        app = \<lparr>namespace = ''rxd.wave'', schema = ''wave_name_v1'',
               data = \<lparr>WaveNameData.name = ''alice'', parent = None, zone = ()\<rparr>\<rparr>,
        WaveMetadata.mutable =
          Some \<lparr>allowed = True, controller = None, fields_mut = [''/app/data/zone'']\<rparr>\<rparr>"
proof -
  have ok: "valid (validateWaveName ''alice'')" by code_simp
  show ?thesis
    by (simp add: createWaveMetadata_valid [OF ok] truthy_def)
qed

lemma bitLength_le: "n < 2 ^ k \<Longrightarrow> bitLength n \<le> k"
proof (induction k arbitrary: n)
  case 0
  then show ?case by (simp add: bitLength.simps)
next
  case (Suc k)
  show ?case
  proof (cases "n = 0")
    case True
    then show ?thesis by (simp add: bitLength.simps)
  next
    case False
    from Suc.prems have "n div 2 < 2 ^ k" by simp
    then have "bitLength (n div 2) \<le> k" by (rule Suc.IH)
    then show ?thesis using False by (subst bitLength.simps) simp
  qed
qed

lemma roundToDouble_exact: "n < 2 ^ 53 \<Longrightarrow> roundToDouble n = n"
  using bitLength_le [of n 53] by (simp add: roundToDouble_def)

lemma toNumber_exact: "n < 2 ^ 53 \<Longrightarrow> toNumber n = Some n"
proof -
  assume a: "n < 2 ^ 53"
  have "(2::nat) ^ 53 \<le> 2 ^ 1024" by (rule power_increasing) simp_all
  then have "n < 2 ^ 1024" using a by linarith
  then show ?thesis using a by (simp add: toNumber_def roundToDouble_exact)
qed

text \<open>
  C10, as amended. For every string \<open>name\<close> and natural number \<open>updateCount\<close> with
  \<open>(length name + 1) * 1024 + updateCount * 500\<close> below \<open>2 ^ 53\<close>,
  \<open>estimateResolutionSize\<close> returns exactly that number, whether or not the name is a
  valid one: 6144 for \<open>alice\<close> with no update and 11144 with ten.
\<close>

theorem estimateResolutionSize_formula:
  assumes "(length nm + 1) * 1024 + updateCount * 500 < 2 ^ 53"
  shows "estimateResolutionSize nm updateCount =
           Some ((length nm + 1) * 1024 + updateCount * 500)"
proof -
  have a: "length nm + 1 < 2 ^ 53" "(length nm + 1) * 1024 < 2 ^ 53" "updateCount * 500 < 2 ^ 53"
    using assms by simp_all
  show ?thesis
    using a assms
    by (simp add: estimateResolutionSize_def num_add_def num_mul_def toNumber_exact)
qed

theorem estimateResolutionSize_formula_witness:
  "estimateResolutionSize ''alice'' 0 = Some 6144 \<and>
   estimateResolutionSize ''alice'' 10 = Some 11144 \<and>
   estimateResolutionSize ''-not a name-'' 1 = Some 13812"
  using estimateResolutionSize_formula [of "''alice''" 0]
    estimateResolutionSize_formula [of "''alice''" 10]
    estimateResolutionSize_formula [of "''-not a name-''" 1]
  by simp

lemma bitLength_eq: "0 < k \<Longrightarrow> 2 ^ (k - 1) \<le> n \<Longrightarrow> n < 2 ^ k \<Longrightarrow> bitLength n = k"
proof (induction k arbitrary: n)
  case 0
  then show ?case by simp
next
  case (Suc k)
  show ?case
  proof (cases "k = 0")
    case True
    with Suc.prems have "n = 1" by simp
    then show ?thesis using True by (simp add: bitLength.simps)
  next
    case False
    then obtain j where j: "k = Suc j" by (cases k) auto
    from Suc.prems have n: "n \<noteq> 0" by auto
    have "2 ^ (k - 1) \<le> n div 2"
      using Suc.prems(2) j by simp
    moreover have "n div 2 < 2 ^ k" using Suc.prems(3) by simp
    ultimately have "bitLength (n div 2) = k"
      using False Suc.IH by simp
    then show ?thesis using n by (subst bitLength.simps) simp
  qed
qed

lemma toNumber_below: "roundToDouble n < 2 ^ 64 \<Longrightarrow> toNumber n = Some (roundToDouble n)"
proof -
  assume a: "roundToDouble n < 2 ^ 64"
  have "(2::nat) ^ 64 \<le> 2 ^ 1024" by (rule power_increasing) simp_all
  then have "roundToDouble n < 2 ^ 1024" using a by linarith
  then show ?thesis by (simp add: toNumber_def)
qed

lemma round_product: "roundToDouble (2251799813685249 * 500) = 1125899906842624512"
proof -
  have "bitLength (2251799813685249 * 500) = 60"
    by (rule bitLength_eq) simp_all
  then show ?thesis by (simp add: roundToDouble_def)
qed

lemma round_total: "roundToDouble (6144 + 1125899906842624512) = 1125899906842630656"
proof -
  have "bitLength (6144 + 1125899906842624512) = 60"
    by (rule bitLength_eq) simp_all
  then show ?thesis by (simp add: roundToDouble_def)
qed

text \<open>
  C10 as stated is about every natural number \<open>updateCount\<close>; it fails at
  \<open>updateCount = 2 ^ 51 + 1\<close>. There the product \<open>updateCount * 500\<close> is
  \<open>125 * 2 ^ 53 + 500\<close>; the doubles of that size are the multiples of 128, so the product
  is rounded to \<open>125 * 2 ^ 53 + 512\<close> and the result is 12 more than the formula's.
\<close>

theorem estimateResolutionSize_rounds:
  "estimateResolutionSize ''alice'' 2251799813685249 = Some 1125899906842630656 \<and>
   (length ''alice'' + 1) * 1024 + 2251799813685249 * 500 = (1125899906842630644 :: nat)"
proof -
  have "toNumber (2251799813685249 * 500) = Some 1125899906842624512"
    using toNumber_below [of "2251799813685249 * 500"] by (simp only: round_product) simp
  moreover have "toNumber (6144 + 1125899906842624512) = Some 1125899906842630656"
    using toNumber_below [of "6144 + 1125899906842624512"] by (simp only: round_total) simp
  moreover have "num_add (Some (length ''alice'')) (Some 1) = Some 6"
  proof -
    have e: "length ''alice'' + 1 = 6" by simp
    have "toNumber (length ''alice'' + 1) = toNumber 6" by (simp only: e)
    also have "\<dots> = Some 6" using toNumber_exact [of 6] by simp
    finally show ?thesis by (simp only: num_add_def option.case)
  qed
  moreover have "num_mul (Some 6) (Some 1024) = Some 6144"
    using toNumber_exact [of 6144] by (simp add: num_mul_def)
  ultimately show ?thesis
    by (simp add: estimateResolutionSize_def num_add_def [of "Some 6144"] num_mul_def [of "Some 2251799813685249"])
qed

section \<open>The model on the inputs of the package's tests\<close>

text \<open>
  The expectations of the package's test files for the functions modelled here, each
  evaluated on the model.
\<close>

lemma tests_validateProtocols:
  "valid (validateProtocols [GLYPH_FT])"
  "valid (validateProtocols [GLYPH_NFT])"
  "valid (validateProtocols [GLYPH_FT, GLYPH_DMINT])"
  "valid (validateProtocols [GLYPH_NFT, GLYPH_MUT])"
  "valid (validateProtocols [GLYPH_NFT, GLYPH_CONTAINER])"
  "valid (validateProtocols [GLYPH_NFT, GLYPH_MUT, GLYPH_WAVE])"
  "validateProtocols [GLYPH_FT, GLYPH_NFT] =
     \<lparr>valid = False, error = Some ''Protocols GLYPH_FT and GLYPH_NFT are mutually exclusive''\<rparr>"
  "validateProtocols [GLYPH_DMINT] =
     \<lparr>valid = False, error = Some ''Protocol GLYPH_DMINT requires GLYPH_FT''\<rparr>"
  "\<not> valid (validateProtocols [GLYPH_MUT])"
  "validateProtocols [GLYPH_NFT, GLYPH_WAVE] =
     \<lparr>valid = False, error = Some ''Protocol GLYPH_WAVE requires GLYPH_MUT''\<rparr>"
  "valid (validateProtocols [])"
  "validateProtocols [1, 2, 3, 4, 5] =
     \<lparr>valid = False, error = Some ''Protocols GLYPH_FT and GLYPH_NFT are mutually exclusive''\<rparr>"
  by code_simp+

lemma tests_codec:
  "charToIndex ''a'' = Inr 0" "charToIndex ''z'' = Inr 25" "charToIndex ''0'' = Inr 26"
  "charToIndex ''9'' = Inr 35" "charToIndex ''-'' = Inr 36"
  "charToIndex ''A'' = Inr 0" "charToIndex ''Z'' = Inr 25"
  "charToIndex ''!'' = Inl (InvalidWaveCharacter ''!'')"
  "charToIndex '' '' = Inl (InvalidWaveCharacter '' '')"
  "charToIndex ''_'' = Inl (InvalidWaveCharacter ''_'')"
  "charToIndex ''ab'' = Inl (ExpectedSingleCharacter ''ab'')"
  "indexToChar 0 = Inr ''a''" "indexToChar 25 = Inr ''z''" "indexToChar 26 = Inr ''0''"
  "indexToChar 35 = Inr ''9''" "indexToChar 36 = Inr ''-''"
  "indexToChar (- 1) = Inl (InvalidWaveIndex (- 1))" "indexToChar 37 = Inl (InvalidWaveIndex 37)"
  "charToOutputIndex ''a'' = Inr 1" "charToOutputIndex ''-'' = Inr 37"
  "outputIndexToChar 0 = Inl (InvalidBranchOutputIndex 0)"
  "outputIndexToChar 38 = Inl (InvalidBranchOutputIndex 38)"
  by code_simp+

lemma tests_validateWaveName:
  "valid (validateWaveName ''alice'')" "valid (validateWaveName ''bob123'')"
  "valid (validateWaveName ''my-name'')" "valid (validateWaveName ''a'')"
  "valid (validateWaveName ''0'')"
  "validateWaveName '''' = \<lparr>valid = False, error = Some ''Name cannot be empty''\<rparr>"
  "validateWaveName ''-alice'' = \<lparr>valid = False, error = Some ''Name cannot start with hyphen''\<rparr>"
  "validateWaveName ''alice-'' = \<lparr>valid = False, error = Some ''Name cannot end with hyphen''\<rparr>"
  "validateWaveName ''al--ice'' =
     \<lparr>valid = False,
      error = Some ''Name cannot contain consecutive hyphens (except Punycode prefix)''\<rparr>"
  "valid (validateWaveName ''xn--wgv71a'')"
  "validateWaveName ''alice!'' = \<lparr>valid = False, error = Some ''Invalid character: \"!\"''\<rparr>"
  by code_simp+

lemma tests_domains:
  "valid (validateDomain ''alice'')" "valid (validateDomain ''mail.alice'')"
  "valid (validateDomain ''dev.mail.alice'')" "\<not> valid (validateDomain '''')"
  "validateDomain ''-alice.bob'' =
     \<lparr>valid = False,
      error = Some ''Invalid label \"-alice\": Name cannot start with hyphen''\<rparr>"
  "parseLabels ''alice'' = [''alice'']" "parseLabels ''mail.alice'' = [''mail'', ''alice'']"
  "parseLabels ''a.b.c'' = [''a'', ''b'', ''c'']" "parseLabels '''' = []"
  "parseLabels ''.'' = []" "parseLabels ''a..b'' = [''a'', ''b'']"
  "joinLabels [''alice''] = ''alice''" "joinLabels [''mail'', ''alice''] = ''mail.alice''"
  "isPunycode ''xn--wgv71a''" "isPunycode ''XN--WGV71A''"
  "\<not> isPunycode ''alice''" "\<not> isPunycode ''xn-test''"
  by code_simp+

lemma tests_path:
  "getCharacterPath ''alice'' =
     Inr [\<lparr>char = ''a'', index = 0, outputIndex = 1\<rparr>,
          \<lparr>char = ''l'', index = 11, outputIndex = 12\<rparr>,
          \<lparr>char = ''i'', index = 8, outputIndex = 9\<rparr>,
          \<lparr>char = ''c'', index = 2, outputIndex = 3\<rparr>,
          \<lparr>char = ''e'', index = 4, outputIndex = 5\<rparr>]"
  "getCharacterPath ''ALICE'' = getCharacterPath ''alice''"
  "getCharacterPath ''-invalid'' = Inl (InvalidName (Some ''Name cannot start with hyphen''))"
  by code_simp+

end
